theory Spec2Isabelle
  imports Main "HOL-Library.Char_ord" "HOL-Library.List_Lexorder" "HOL-Library.Word"
begin

section \<open>The Element node of HtmlBuilder (include/HTML/Element.h)\<close>

text \<open>
  \<^verbatim>\<open>class Element\<close> has five data members: \<^verbatim>\<open>mName\<close>, \<^verbatim>\<open>mContent\<close>, \<^verbatim>\<open>mAttributes\<close>
  (a \<^verbatim>\<open>std::map<std::string, std::string>\<close>), \<^verbatim>\<open>mChildren\<close> (a \<^verbatim>\<open>std::vector<Element>\<close>)
  and \<^verbatim>\<open>mbNonVoid\<close> (default \<^verbatim>\<open>false\<close>).

  A \<^verbatim>\<open>std::string\<close> is a \<^typ>\<open>string\<close> (a list of bytes). The \<^verbatim>\<open>std::map\<close> is kept as the
  list of its entries in iteration order, that is by ascending key under
  \<^verbatim>\<open>std::less<std::string>\<close>: bytes compare as unsigned values (the order of
  \<^typ>\<open>char\<close> here) and strings lexicographically, a proper prefix first (the order of
  lists here).
\<close>

datatype Element =
  Element (mName: string) (mContent: string) (mAttributes: "(string \<times> string) list")
          (mChildren: "Element list") (mbNonVoid: bool)

text \<open>\<^verbatim>\<open>#define HTML_INDENTATION 2\<close>; indentations are \<^verbatim>\<open>size_t\<close> values.\<close>

type_synonym size_t = "64 word"

definition HTML_INDENTATION :: size_t where
  "HTML_INDENTATION = 2"

subsection \<open>The attribute map\<close>

text \<open>
  \<^verbatim>\<open>mAttributes[apName] = aValue\<close>: \<^verbatim>\<open>operator[]\<close> finds the entry of the key or inserts
  one at the key's place in the order, and the assignment stores the value in it.
\<close>

fun map_assign :: "string \<Rightarrow> string \<Rightarrow> (string \<times> string) list \<Rightarrow> (string \<times> string) list" where
  "map_assign k v [] = [(k, v)]"
| "map_assign k v ((k', v') # m) =
     (if k < k' then (k, v) # (k', v') # m
      else if k = k' then (k, v) # m
      else (k', v') # map_assign k v m)"

subsection \<open>Constructors and the builder calls\<close>

text \<open>
  \<^verbatim>\<open>Element(const char* apName, const std::string& aContent)\<close> (and the \<^verbatim>\<open>std::string&&\<close>
  overload): name and content as given, no attribute, no child, \<^verbatim>\<open>mbNonVoid = false\<close>.
\<close>

definition Element_ctor :: "string \<Rightarrow> string \<Rightarrow> Element" where
  "Element_ctor apName aContent = Element apName aContent [] [] False"

text \<open>
  \<^verbatim>\<open>explicit Element(const char* apName, const char* apContent = nullptr)\<close>:
  \<^verbatim>\<open>mContent(apContent ? apContent : "")\<close>. The null pointer is \<^const>\<open>None\<close>.
\<close>

definition Element_ctor_cstr :: "string \<Rightarrow> string option \<Rightarrow> Element" where
  "Element_ctor_cstr apName apContent =
     Element apName (case apContent of None \<Rightarrow> [] | Some c \<Rightarrow> c) [] [] False"

text \<open>\<^verbatim>\<open>addAttribute(const char* apName, const std::string& aValue)\<close>.\<close>

fun addAttribute :: "Element \<Rightarrow> string \<Rightarrow> string \<Rightarrow> Element" where
  "addAttribute (Element n c as ch nv) apName aValue =
     Element n c (map_assign apName aValue as) ch nv"

text \<open>
  \<^verbatim>\<open>Element&& operator<<(Element&& aElement)\<close>: \<^verbatim>\<open>mChildren.push_back(std::move(aElement))\<close>.
  Pushing an object of a derived class stores its \<^verbatim>\<open>Element\<close> part, which is all of its data.
\<close>

fun operator_shl :: "Element \<Rightarrow> Element \<Rightarrow> Element" where
  "operator_shl (Element n c as ch nv) aElement = Element n c as (ch @ [aElement]) nv"

subsection \<open>Rendering\<close>

text \<open>
  The output stream is the string written so far; each function returns the stream
  after its writes. \<^verbatim>\<open>std::fill_n(std::ostream_iterator<char>(aStream), aIndentation, ' ')\<close>
  writes \<^verbatim>\<open>aIndentation\<close> spaces.
\<close>

definition fill_n :: "string \<Rightarrow> size_t \<Rightarrow> char \<Rightarrow> string" where
  "fill_n aStream n c = aStream @ replicate (unat n) c"

text \<open>The body of the loop over \<^verbatim>\<open>mAttributes\<close> in \<^verbatim>\<open>toStringOpen\<close>.\<close>

definition put_attr :: "string \<times> string \<Rightarrow> string \<Rightarrow> string" where
  "put_attr attr aStream =
     (let s = aStream @ '' '' @ fst attr
      in if snd attr \<noteq> [] then s @ ''=\"'' @ snd attr @ ''\"'' else s)"

definition toStringOpen :: "Element \<Rightarrow> string \<Rightarrow> size_t \<Rightarrow> string" where
  "toStringOpen e aStream aIndentation =
     (if mName e \<noteq> [] then
        (let s1 = fill_n aStream aIndentation (CHR '' '');
             s2 = s1 @ ''<'' @ mName e;
             s3 = fold put_attr (mAttributes e) s2
         in if mContent e = [] then
              (if mbNonVoid e then s3 @ ''>''
               else if mChildren e \<noteq> [] then s3 @ ''>'' @ [CHR 0x0A]
               else s3 @ ''/>'' @ [CHR 0x0A])
            else s3 @ ''>'')
      else aStream)"

definition toStringClose :: "Element \<Rightarrow> string \<Rightarrow> size_t \<Rightarrow> string" where
  "toStringClose e aStream aIndentation =
     (if mName e \<noteq> [] then
        (let s1 = (if mChildren e \<noteq> [] then fill_n aStream aIndentation (CHR '' '') else aStream)
         in if mContent e \<noteq> [] \<or> mChildren e \<noteq> [] \<or> mbNonVoid e
            then s1 @ ''</'' @ mName e @ ''>'' @ [CHR 0x0A]
            else s1)
      else aStream)"

text \<open>
  \<^verbatim>\<open>toString(aStream, aIndentation)\<close> calls \<^verbatim>\<open>toStringOpen\<close>, \<^verbatim>\<open>toStringContent\<close> and
  \<^verbatim>\<open>toStringClose\<close>; \<^verbatim>\<open>toStringContent\<close> calls \<^verbatim>\<open>toString\<close> of every child, at
  \<^verbatim>\<open>aIndentation + HTML_INDENTATION\<close> (an addition of \<^verbatim>\<open>size_t\<close>). The two are one
  recursion over the tree; \<^verbatim>\<open>toStringContent\<close> is defined from it below.
\<close>

fun toString :: "Element \<Rightarrow> string \<Rightarrow> size_t \<Rightarrow> string" where
  "toString (Element n c as ch nv) aStream aIndentation =
     (let s1 = toStringOpen (Element n c as ch nv) aStream aIndentation;
          s2 = (if n \<noteq> [] then
                  fold (\<lambda>child s. toString child s (aIndentation + HTML_INDENTATION)) ch (s1 @ c)
                else fill_n s1 aIndentation (CHR '' '') @ c @ [CHR 0x0A])
      in toStringClose (Element n c as ch nv) s2 aIndentation)"

definition toStringContent :: "Element \<Rightarrow> string \<Rightarrow> size_t \<Rightarrow> string" where
  "toStringContent e aStream aIndentation =
     (if mName e \<noteq> [] then
        fold (\<lambda>child s. toString child s (aIndentation + HTML_INDENTATION)) (mChildren e)
          (aStream @ mContent e)
      else fill_n aStream aIndentation (CHR '' '') @ mContent e @ [CHR 0x0A])"

text \<open>
  The public \<^verbatim>\<open>std::string toString() const\<close>: a fresh stream, \<^verbatim>\<open>stream << *this\<close>, that is
  \<^verbatim>\<open>toString(aStream)\<close> with the default indentation 0.
\<close>

definition toString_str :: "Element \<Rightarrow> string" where
  "toString_str e = toString e [] 0"

subsection \<open>Numbers as attribute values\<close>

text \<open>
  \<^verbatim>\<open>addAttribute(const char* apName, const unsigned int aValue)\<close> stores
  \<^verbatim>\<open>std::to_string(aValue)\<close>, the decimal digits of the value.
\<close>

function to_string :: "nat \<Rightarrow> string" where
  "to_string n =
     (if n < 10 then [char_of (48 + n)]
      else to_string (n div 10) @ [char_of (48 + n mod 10)])"
  by pat_completeness auto
termination
  by (relation "measure id") auto

declare to_string.simps [simp del]

definition addAttribute_uint :: "Element \<Rightarrow> string \<Rightarrow> 32 word \<Rightarrow> Element" where
  "addAttribute_uint e apName aValue = addAttribute e apName (to_string (unat aValue))"

subsection \<open>The specialised classes\<close>

text \<open>
  Every other class of the header derives from \<^verbatim>\<open>Element\<close> and adds no data member: its
  constructor calls a constructor of \<^verbatim>\<open>Element\<close>, then \<^verbatim>\<open>addAttribute\<close> for its preset
  attributes, and \<^verbatim>\<open>ColHeader\<close>, \<^verbatim>\<open>Col\<close>, \<^verbatim>\<open>TextArea\<close> and \<^verbatim>\<open>Option\<close> set
  \<^verbatim>\<open>mbNonVoid = true\<close>. The constructors used below are written out.
\<close>

fun set_mbNonVoid :: "Element \<Rightarrow> Element" where
  "set_mbNonVoid (Element n c as ch nv) = Element n c as ch True"

definition Text :: "string \<Rightarrow> Element" where
  "Text aContent = Element_ctor [] aContent"

definition Title :: "string \<Rightarrow> Element" where
  "Title aContent = Element_ctor ''title'' aContent"

definition Head :: Element where
  "Head = Element_ctor_cstr ''head'' None"

definition Body :: Element where
  "Body = Element_ctor_cstr ''body'' None"

definition Break :: Element where
  "Break = Element_ctor_cstr ''br'' None"

definition ColHeader :: "string option \<Rightarrow> Element" where
  "ColHeader apContent = set_mbNonVoid (Element_ctor_cstr ''th'' apContent)"

definition Col :: "string option \<Rightarrow> Element" where
  "Col apContent = set_mbNonVoid (Element_ctor_cstr ''td'' apContent)"

definition Row :: Element where
  "Row = Element_ctor_cstr ''tr'' None"

definition Table :: Element where
  "Table = Element_ctor_cstr ''table'' None"

definition TextArea :: "string \<Rightarrow> 32 word \<Rightarrow> 32 word \<Rightarrow> Element" where
  "TextArea apName aCols aRows =
     (let e0 = addAttribute (Element_ctor_cstr ''textarea'' None) ''name'' apName;
          e1 = (if 0 < aCols then addAttribute_uint e0 ''cols'' aCols else e0);
          e2 = (if 0 < aRows then addAttribute_uint e1 ''rows'' aRows else e1)
      in set_mbNonVoid e2)"

definition Option_ctor :: "string \<Rightarrow> string option \<Rightarrow> Element" where
  "Option_ctor apValue apContent =
     set_mbNonVoid (addAttribute (Element_ctor_cstr ''option'' apContent) ''value'' apValue)"

definition Paragraph :: "string \<Rightarrow> Element" where
  "Paragraph aContent = Element_ctor ''p'' aContent"

definition Div :: "string \<Rightarrow> Element" where
  "Div aContent = Element_ctor ''div'' aContent"

text \<open>
  The protected \<^verbatim>\<open>Element::Element() : mName("html"), mChildren{Head(), Body()}\<close>, the
  constructor of the root; the other members keep their defaults.
\<close>

definition Element_root :: Element where
  "Element_root = Element ''html'' [] [] [Head, Body] False"

text \<open>
  The nodes a program can hold: the results of the public constructors, of the root
  constructor and of the four constructors that set \<^verbatim>\<open>mbNonVoid\<close>, closed under
  \<^verbatim>\<open>addAttribute\<close> and \<^verbatim>\<open>operator<<\<close>. No other code of the header writes a data member.
\<close>

inductive constructible :: "Element \<Rightarrow> bool" where
  c_ctor: "constructible (Element_ctor apName aContent)"
| c_ctor_cstr: "constructible (Element_ctor_cstr apName apContent)"
| c_root: "constructible Element_root"
| c_ColHeader: "constructible (ColHeader apContent)"
| c_Col: "constructible (Col apContent)"
| c_TextArea: "constructible (TextArea apName aCols aRows)"
| c_Option: "constructible (Option_ctor apValue apContent)"
| c_addAttribute: "constructible e \<Longrightarrow> constructible (addAttribute e apName aValue)"
| c_shl: "constructible e \<Longrightarrow> constructible aElement \<Longrightarrow> constructible (operator_shl e aElement)"

subsection \<open>Static types and the overloads of the gated containers\<close>

text \<open>The classes of the header.\<close>

datatype Class =
    Element_t | Text_t | Title_t | Style_t | Script_t | Meta_t | Rel_t | Base_t
  | Head_t | Body_t | Break_t | ColHeader_t | Col_t | Row_t | Table_t | List_t
  | ListItem_t | Form_t | Input_t | InputRadio_t | InputCheckbox_t | InputText_t
  | TextArea_t | InputNumber_t | InputRange_t | InputDate_t | InputTime_t
  | InputEmail_t | InputUrl_t | InputPassword_t | InputSubmit_t | InputReset_t
  | InputList_t | DataList_t | Select_t | Option_t | Header1_t | Header2_t
  | Header3_t | Bold_t | Italic_t | Strong_t | Paragraph_t | Div_t | Span_t
  | Link_t | Image_t | Mark_t | Time_t | Header_t | Footer_t | Section_t
  | Article_t | Nav_t | Aside_t | Main_t | Figure_t | FigCaption_t | Details_t
  | Summary_t

text \<open>
  The inheritance relation: the thirteen \<^verbatim>\<open>Input...\<close> classes derive from \<^verbatim>\<open>Input\<close>,
  every class derives from \<^verbatim>\<open>Element\<close>.
\<close>

definition input_subclasses :: "Class list" where
  "input_subclasses =
     [InputRadio_t, InputCheckbox_t, InputText_t, InputNumber_t, InputRange_t,
      InputDate_t, InputTime_t, InputEmail_t, InputUrl_t, InputPassword_t,
      InputSubmit_t, InputReset_t, InputList_t]"

definition derives_from :: "Class \<Rightarrow> Class \<Rightarrow> bool" where
  "derives_from c p =
     (c = p \<or> p = Element_t \<or> (p = Input_t \<and> c \<in> set input_subclasses))"

text \<open>
  The parameter classes of the \<^verbatim>\<open>operator<<\<close> overloads that a class declares itself,
  next to its \<^verbatim>\<open>operator<<(Element&&) = delete\<close>. A class with none inherits the
  overloads of \<^verbatim>\<open>Element\<close>.
\<close>

fun own_overloads :: "Class \<Rightarrow> Class list" where
  "own_overloads Head_t = [Title_t, Style_t, Script_t, Meta_t, Rel_t, Base_t]"
| "own_overloads Row_t = [ColHeader_t, Col_t]"
| "own_overloads Table_t = [Row_t]"
| "own_overloads _ = []"

text \<open>The return type of these overloads: \<^verbatim>\<open>Head&&\<close>, \<^verbatim>\<open>Row&&\<close>, and \<^verbatim>\<open>Element&&\<close> in \<^verbatim>\<open>Table\<close>.\<close>

fun own_result :: "Class \<Rightarrow> Class" where
  "own_result Head_t = Head_t"
| "own_result Row_t = Row_t"
| "own_result _ = Element_t"

datatype compile_error = deleted_function

text \<open>
  An rvalue expression is the class it has statically and the object it denotes.
  \<^verbatim>\<open>lhs << rhs\<close> on two of them: in a class with its own overloads these hide the
  inherited ones, an argument whose class is (or derives from) a parameter class
  takes that overload, and any other argument binds to the deleted
  \<^verbatim>\<open>operator<<(Element&&)\<close> only, which is ill-formed. Elsewhere
  \<^verbatim>\<open>Element::operator<<(Element&&)\<close> is called and returns \<^verbatim>\<open>Element&&\<close>.
\<close>

fun shl_expr :: "Class \<times> Element \<Rightarrow> Class \<times> Element \<Rightarrow> compile_error + Class \<times> Element" where
  "shl_expr (k, e) (c, aElement) =
     (if own_overloads k \<noteq> [] then
        (if list_ex (derives_from c) (own_overloads k)
         then Inr (own_result k, operator_shl e aElement)
         else Inl deleted_function)
      else Inr (Element_t, operator_shl e aElement))"

text \<open>
  \<^verbatim>\<open>Element&& id(const std::string& aValue)\<close>, which \<^verbatim>\<open>Input\<close> redeclares with the return
  type \<^verbatim>\<open>Input&&\<close>.
\<close>

definition id_attr :: "Element \<Rightarrow> string \<Rightarrow> Element" where
  "id_attr e aValue = addAttribute e ''id'' aValue"

fun id_expr :: "Class \<times> Element \<Rightarrow> string \<Rightarrow> Class \<times> Element" where
  "id_expr (k, e) aValue =
     ((if derives_from k Input_t then Input_t else Element_t), id_attr e aValue)"

subsection \<open>Reading an output\<close>

text \<open>The lines of a text: the pieces ended by a newline, and what follows the last one.\<close>

fun lines_from :: "string \<Rightarrow> string \<Rightarrow> string list" where
  "lines_from cur [] = (if cur = [] then [] else [cur])"
| "lines_from cur (c # cs) =
     (if c = CHR 0x0A then cur # lines_from [] cs else lines_from (cur @ [c]) cs)"

definition lines_of :: "string \<Rightarrow> string list" where
  "lines_of out = lines_from [] out"

text \<open>What the loop over the attributes writes for one entry, and for all of them.\<close>

definition attr_text :: "string \<times> string \<Rightarrow> string" where
  "attr_text attr = put_attr attr []"

definition attrs_text :: "(string \<times> string) list \<Rightarrow> string" where
  "attrs_text as = concat (map attr_text as)"

definition spaces :: "size_t \<Rightarrow> string" where
  "spaces n = replicate (unat n) (CHR '' '')"

text \<open>The blocks of a list of children, each rendered on a fresh stream at one indentation.\<close>

definition children_text :: "Element list \<Rightarrow> size_t \<Rightarrow> string" where
  "children_text ch i = concat (map (\<lambda>c. toString c [] i) ch)"

text \<open>
  The layout that the specification states for a node with children and no content,
  in its own words: an opening tag line, one rendered block per child at
  \<^verbatim>\<open>indent+INDENT_WIDTH\<close>, then a closing tag line at \<^verbatim>\<open>indent\<close>.
\<close>

definition spec_block_layout :: "Element \<Rightarrow> size_t \<Rightarrow> string" where
  "spec_block_layout e i =
     spaces i @ ''<'' @ mName e @ attrs_text (mAttributes e) @ ''>'' @ [CHR 0x0A] @
     children_text (mChildren e) (i + HTML_INDENTATION) @
     spaces i @ ''</'' @ mName e @ ''>'' @ [CHR 0x0A]"

text \<open>A sequence of \<^verbatim>\<open>addAttribute\<close> calls on one node, in the order of the list.\<close>

definition addAttributes :: "Element \<Rightarrow> (string \<times> string) list \<Rightarrow> Element" where
  "addAttributes e calls = fold (\<lambda>call e'. addAttribute e' (fst call) (snd call)) calls e"

section \<open>Properties\<close>

lemma toString_phases:
  "toString e s i = toStringClose e (toStringContent e (toStringOpen e s i) i) i"
  by (cases e) (simp add: toStringContent_def Let_def)


subsection \<open>The stream is only appended to\<close>

lemma fold_put_attr: "fold put_attr as s = s @ attrs_text as"
  by (induction as arbitrary: s) (simp_all add: attrs_text_def attr_text_def put_attr_def Let_def)

lemma toStringOpen_append: "toStringOpen e s i = s @ toStringOpen e [] i"
  by (simp add: toStringOpen_def fill_n_def fold_put_attr Let_def)

lemma toStringClose_append: "toStringClose e s i = s @ toStringClose e [] i"
  by (simp add: toStringClose_def fill_n_def Let_def)

lemma fold_children_append:
  assumes "\<And>c s. c \<in> set ch \<Longrightarrow> f c s = s @ f c []"
  shows "fold f ch s = s @ concat (map (\<lambda>c. f c []) ch)"
  using assms
proof (induction ch arbitrary: s)
  case Nil
  show ?case by simp
next
  case (Cons x xs)
  have hd: "f x s = s @ f x []"
    by (rule Cons.prems) simp
  have "fold f (x # xs) s = fold f xs (f x s)"
    by simp
  also have "\<dots> = f x s @ concat (map (\<lambda>c. f c []) xs)"
    by (rule Cons.IH) (rule Cons.prems, simp)
  also have "\<dots> = s @ concat (map (\<lambda>c. f c []) (x # xs))"
    by (subst hd) simp
  finally show ?case .
qed

lemma toString_append: "toString e s i = s @ toString e [] i"
proof (induction e s i rule: toString.induct)
  case (1 n c as ch nv s i)
  let ?e = "Element n c as ch nv"
  let ?f = "\<lambda>child s. toString child s (i + HTML_INDENTATION)"
  show ?case
  proof (cases "n = []")
    case True
    then show ?thesis
      by (simp add: toStringOpen_def toStringClose_def fill_n_def)
  next
    case False
    have ch: "\<And>x t. x \<in> set ch \<Longrightarrow> ?f x t = t @ ?f x []"
      using "1.IH" False by blast
    have "\<And>t. fold ?f ch t = t @ concat (map (\<lambda>x. ?f x []) ch)"
      using ch by (rule fold_children_append)
    then have body: "\<And>t. fold ?f ch t = t @ fold ?f ch []"
      by (metis append_Nil)
    have "toString ?e s i = toStringClose ?e (fold ?f ch (toStringOpen ?e s i @ c)) i"
      using False by (simp add: Let_def)
    also have "\<dots> = s @ toStringClose ?e (fold ?f ch (toStringOpen ?e [] i @ c)) i"
      by (metis toStringOpen_append toStringClose_append body append.assoc)
    also have "\<dots> = s @ toString ?e [] i"
      using False by (simp add: Let_def)
    finally show ?thesis .
  qed
qed

lemma fold_toString: "fold (\<lambda>child s. toString child s j) ch s = s @ children_text ch j"
  unfolding children_text_def
  by (rule fold_children_append) (rule toString_append)

lemma toString_text:
  "mName e = [] \<Longrightarrow> toString e [] i = spaces i @ mContent e @ [CHR 0x0A]"
  by (cases e) (simp add: toStringOpen_def toStringClose_def fill_n_def spaces_def)

lemma toString_tag:
  "mName e \<noteq> [] \<Longrightarrow> toString e [] i =
     spaces i @ ''<'' @ mName e @ attrs_text (mAttributes e) @
     (if mContent e = [] then
        (if mbNonVoid e then ''>'' else if mChildren e \<noteq> [] then ''>'' @ [CHR 0x0A] else ''/>'' @ [CHR 0x0A])
      else ''>'') @
     mContent e @ children_text (mChildren e) (i + HTML_INDENTATION) @
     (if mChildren e \<noteq> [] then spaces i else []) @
     (if mContent e \<noteq> [] \<or> mChildren e \<noteq> [] \<or> mbNonVoid e then ''</'' @ mName e @ ''>'' @ [CHR 0x0A] else [])"
  by (cases e) (simp add: toStringOpen_def toStringClose_def fill_n_def spaces_def fold_put_attr fold_toString Let_def)

lemma toString_ends_newline: "\<exists>out. toString e [] i = out @ [CHR 0x0A]"
proof (cases "mName e = []")
  case True
  then show ?thesis by (simp add: toString_text)
next
  case False
  show ?thesis
  proof (cases "mContent e \<noteq> [] \<or> mChildren e \<noteq> [] \<or> mbNonVoid e")
    case True
    with False show ?thesis by (simp add: toString_tag del: append_assoc add: append_assoc[symmetric])
  next
    case False
    with \<open>mName e \<noteq> []\<close> show ?thesis by (simp add: toString_tag children_text_def del: append_assoc add: append_assoc[symmetric])
  qed
qed

subsection \<open>Evaluating concrete renderings\<close>

lemma attr_text_eq:
  "attr_text (k, v) = '' '' @ k @ (if v = [] then [] else ''=\"'' @ v @ ''\"'')"
  by (simp add: attr_text_def put_attr_def)

lemma replicate_two: "replicate 2 c = [c, c]"
  by (simp add: numeral_2_eq_2)

lemma fill_n_0: "fill_n s 0 c = s"
  by (simp add: fill_n_def)

lemma fill_n_2: "fill_n s 2 c = s @ [c, c]"
  by (simp add: fill_n_def replicate_two)

lemma spaces_0: "spaces 0 = []"
  by (simp add: spaces_def)

lemma spaces_2: "spaces 2 = ''  ''"
  by (simp add: spaces_def replicate_two)

lemmas render_defs =
  toString_str_def toStringOpen_def toStringClose_def fill_n_0 fill_n_2 spaces_0 spaces_2
  put_attr_def HTML_INDENTATION_def Let_def

lemmas ctor_defs =
  Element_ctor_def Element_ctor_cstr_def Text_def Title_def Head_def Body_def Break_def
  ColHeader_def Col_def Row_def Table_def Paragraph_def Div_def Element_root_def

subsection \<open>The data members after a builder call\<close>

lemma mName_addAttribute: "mName (addAttribute e k v) = mName e"
  by (cases e) simp
lemma mContent_addAttribute: "mContent (addAttribute e k v) = mContent e"
  by (cases e) simp
lemma mChildren_addAttribute: "mChildren (addAttribute e k v) = mChildren e"
  by (cases e) simp
lemma mbNonVoid_addAttribute: "mbNonVoid (addAttribute e k v) = mbNonVoid e"
  by (cases e) simp
lemma mAttributes_addAttribute: "mAttributes (addAttribute e k v) = map_assign k v (mAttributes e)"
  by (cases e) simp

lemma mName_operator_shl: "mName (operator_shl e x) = mName e"
  by (cases e) simp
lemma mContent_operator_shl: "mContent (operator_shl e x) = mContent e"
  by (cases e) simp
lemma mChildren_operator_shl: "mChildren (operator_shl e x) = mChildren e @ [x]"
  by (cases e) simp
lemma mbNonVoid_operator_shl: "mbNonVoid (operator_shl e x) = mbNonVoid e"
  by (cases e) simp
lemma mAttributes_operator_shl: "mAttributes (operator_shl e x) = mAttributes e"
  by (cases e) simp

lemma mName_set_mbNonVoid: "mName (set_mbNonVoid e) = mName e"
  by (cases e) simp
lemma mContent_set_mbNonVoid: "mContent (set_mbNonVoid e) = mContent e"
  by (cases e) simp
lemma mChildren_set_mbNonVoid: "mChildren (set_mbNonVoid e) = mChildren e"
  by (cases e) simp
lemma mbNonVoid_set_mbNonVoid: "mbNonVoid (set_mbNonVoid e)"
  by (cases e) simp
lemma mAttributes_set_mbNonVoid: "mAttributes (set_mbNonVoid e) = mAttributes e"
  by (cases e) simp

lemmas data_member_simps =
  mName_addAttribute mContent_addAttribute mChildren_addAttribute mbNonVoid_addAttribute
  mAttributes_addAttribute
  mName_operator_shl mContent_operator_shl mChildren_operator_shl mbNonVoid_operator_shl
  mAttributes_operator_shl
  mName_set_mbNonVoid mContent_set_mbNonVoid mChildren_set_mbNonVoid mbNonVoid_set_mbNonVoid
  mAttributes_set_mbNonVoid

lemma mName_TextArea: "mName (TextArea n c r) = ''textarea''"
  by (simp add: TextArea_def Let_def addAttribute_uint_def data_member_simps Element_ctor_cstr_def)

lemma mName_Option: "mName (Option_ctor v c) = ''option''"
  by (simp add: Option_ctor_def data_member_simps Element_ctor_cstr_def)

lemma constructible_NonVoid_named:
  "constructible e \<Longrightarrow> mbNonVoid e \<Longrightarrow> mName e \<noteq> []"
proof (induction rule: constructible.induct)
  case (c_TextArea n c r)
  show ?case by (simp add: mName_TextArea)
next
  case (c_Option v c)
  show ?case by (simp add: mName_Option)
qed (simp_all add: ctor_defs data_member_simps)

lemma children_text_snoc:
  "children_text (ch @ [x]) j = children_text ch j @ toString x [] j"
  by (simp add: children_text_def)

lemma toString_last_newline:
  "toString e [] i \<noteq> [] \<and> last (toString e [] i) = CHR 0x0A"
  using toString_ends_newline [of e i] by auto

lemmas eval_defs = ctor_defs render_defs attrs_text_def children_text_def attr_text_def

subsection \<open>The attribute map stays ordered\<close>

lemma keys_map_assign: "fst ` set (map_assign k v m) = insert k (fst ` set m)"
proof -
  have "k' \<in> fst ` set (map_assign k v m) \<longleftrightarrow> k' = k \<or> k' \<in> fst ` set m" for k'
    by (induction m) force+
  then show ?thesis by blast
qed

lemma sorted_map_assign:
  "sorted_wrt (<) (map fst m) \<Longrightarrow> sorted_wrt (<) (map fst (map_assign k v m))"
proof (induction m)
  case Nil
  show ?case by simp
next
  case (Cons p m)
  obtain k' v' where p: "p = (k', v')" by (cases p)
  from Cons.prems have tl: "sorted_wrt (<) (map fst m)" and hd: "\<forall>q \<in> set m. k' < fst q"
    by (simp_all add: p)
  have keys: "\<forall>q \<in> set (map_assign k v m). fst q = k \<or> k' < fst q"
    using hd keys_map_assign [of k v m] by (metis insertE image_iff)
  show ?case
  proof (cases "k < k'")
    case True
    with Cons.prems show ?thesis by (auto simp: p)
  next
    case False
    show ?thesis
    proof (cases "k = k'")
      case True
      with Cons.prems show ?thesis by (simp add: p)
    next
      case ne: False
      with False have "k' < k" by simp
      with keys have "\<forall>q \<in> set (map_assign k v m). k' < fst q" by auto
      with Cons.IH [OF tl] False ne show ?thesis by (simp add: p)
    qed
  qed
qed

lemma map_of_map_assign: "map_of (map_assign k v m) = (map_of m)(k \<mapsto> v)"
  by (induction m) (auto simp: fun_eq_iff)

lemma filter_key_none:
  "\<forall>q \<in> set m. (k :: string) < fst q \<Longrightarrow> filter (\<lambda>p. fst p = k) m = []"
  by (induction m) auto

lemma filter_key_map_assign:
  "sorted_wrt (<) (map fst m) \<Longrightarrow> filter (\<lambda>p. fst p = k) (map_assign k v m) = [(k, v)]"
proof (induction m)
  case Nil
  show ?case by simp
next
  case (Cons p m)
  obtain k' v' where p: "p = (k', v')" by (cases p)
  from Cons.prems have tl: "sorted_wrt (<) (map fst m)" and hd: "\<forall>q \<in> set m. k' < fst q"
    by (simp_all add: p)
  show ?case
  proof (cases "k < k'")
    case True
    with hd have "\<forall>q \<in> set m. k < fst q" by auto
    then have "filter (\<lambda>p. fst p = k) m = []" by (rule filter_key_none)
    with True show ?thesis by (simp add: p)
  next
    case False
    show ?thesis
    proof (cases "k = k'")
      case True
      with hd have "\<forall>q \<in> set m. k < fst q" by auto
      then have "filter (\<lambda>p. fst p = k) m = []" by (rule filter_key_none)
      with True show ?thesis by (simp add: p)
    next
      case ne: False
      with False Cons.IH [OF tl] show ?thesis by (simp add: p)
    qed
  qed
qed

lemma constructible_sorted:
  "constructible e \<Longrightarrow> sorted_wrt (<) (map fst (mAttributes e))"
proof (induction rule: constructible.induct)
  case (c_TextArea n c r)
  show ?case
    by (simp add: TextArea_def Let_def addAttribute_uint_def data_member_simps Element_ctor_cstr_def
        sorted_map_assign)
next
  case (c_Option v c)
  show ?case
    by (simp add: Option_ctor_def data_member_simps Element_ctor_cstr_def)
next
  case (c_addAttribute e k v)
  then show ?case by (simp add: data_member_simps sorted_map_assign)
qed (simp_all add: ctor_defs data_member_simps)

lemma constructible_addAttributes:
  "constructible e \<Longrightarrow> constructible (addAttributes e calls)"
  unfolding addAttributes_def
  by (induction calls arbitrary: e) (simp_all add: c_addAttribute)

lemma keys_addAttributes:
  "fst ` set (mAttributes (addAttributes e calls)) = fst ` set (mAttributes e) \<union> fst ` set calls"
  unfolding addAttributes_def
  by (induction calls arbitrary: e) (auto simp: data_member_simps keys_map_assign)

lemma map_of_addAttributes:
  "map_of (mAttributes (addAttributes e calls)) = map_of (mAttributes e) ++ map_of (rev calls)"
  unfolding addAttributes_def
proof (induction calls arbitrary: e)
  case Nil
  show ?case by simp
next
  case (Cons c cs)
  have "(map_of (mAttributes e))(fst c \<mapsto> snd c) ++ map_of (rev cs) =
        map_of (mAttributes e) ++ map_of (rev (c # cs))"
    by (rule ext) (simp add: map_add_def split: option.splits)
  then show ?case
    by (simp only: fold_Cons comp_apply Cons.IH data_member_simps map_of_map_assign)
qed

lemma others_addAttributes:
  "mName (addAttributes e calls) = mName e \<and> mContent (addAttributes e calls) = mContent e \<and>
   mChildren (addAttributes e calls) = mChildren e \<and> mbNonVoid (addAttributes e calls) = mbNonVoid e"
  unfolding addAttributes_def
  by (induction calls arbitrary: e) (simp_all add: data_member_simps)

lemma names_sorted_list:
  assumes "sorted_wrt (<) (map fst (m :: (string \<times> string) list))"
  shows "map fst m = sorted_list_of_set (fst ` set m)"
proof -
  from assms have "sorted (map fst m)" "distinct (map fst m)"
    by (simp_all add: strict_sorted_iff)
  then have "sorted_list_of_set (set (map fst m)) = map fst m"
    by (rule sorted_list_of_set.idem_if_sorted_distinct)
  then show ?thesis by simp
qed

lemma entries_from_map_of:
  "distinct (map fst m) \<Longrightarrow> map (\<lambda>k. (k, the (map_of m k))) (map fst m) = m"
proof (induction m)
  case Nil
  show ?case by simp
next
  case (Cons p m)
  then have "fst p \<notin> fst ` set m" and d: "distinct (map fst m)" by simp_all
  then have "map (\<lambda>k. (k, the (map_of (p # m) k))) (map fst m) = map (\<lambda>k. (k, the (map_of m k))) (map fst m)"
    by (intro map_cong) (auto simp: image_iff)
  with Cons.IH [OF d] show ?case by simp
qed

lemma sorted_entries_unique:
  assumes "sorted_wrt (<) (map fst (m :: (string \<times> string) list))"
    "sorted_wrt (<) (map fst m')" "map_of m = map_of m'"
  shows "m = m'"
proof -
  have "fst ` set m = fst ` set m'"
    using assms(3) by (metis dom_map_of_conv_image_fst)
  then have k: "map fst m = map fst m'"
    using assms(1,2) by (simp add: names_sorted_list)
  have d: "distinct (map fst m)" and d': "distinct (map fst m')"
    using assms(1,2) by (simp_all add: strict_sorted_iff)
  have "m = map (\<lambda>k. (k, the (map_of m k))) (map fst m)"
    using entries_from_map_of [OF d] by (rule sym)
  also have "\<dots> = map (\<lambda>k. (k, the (map_of m' k))) (map fst m')"
    by (simp only: k assms(3))
  also have "\<dots> = m'"
    by (rule entries_from_map_of [OF d'])
  finally show ?thesis .
qed

lemma Element_eqI:
  "mName a = mName b \<Longrightarrow> mContent a = mContent b \<Longrightarrow> mAttributes a = mAttributes b \<Longrightarrow>
   mChildren a = mChildren b \<Longrightarrow> mbNonVoid a = mbNonVoid b \<Longrightarrow> a = b"
  by (cases a, cases b) simp

lemma addAttributes_order_free:
  assumes "constructible e" "map_of (rev calls) = map_of (rev calls')"
  shows "addAttributes e calls = addAttributes e calls'"
proof (rule Element_eqI)
  have "sorted_wrt (<) (map fst (mAttributes (addAttributes e calls)))"
       "sorted_wrt (<) (map fst (mAttributes (addAttributes e calls')))"
    using assms(1) by (simp_all add: constructible_addAttributes constructible_sorted)
  moreover have "map_of (mAttributes (addAttributes e calls)) = map_of (mAttributes (addAttributes e calls'))"
    using assms(2) by (simp add: map_of_addAttributes)
  ultimately show "mAttributes (addAttributes e calls) = mAttributes (addAttributes e calls')"
    by (rule sorted_entries_unique)
qed (simp_all add: others_addAttributes)

lemma attrs_text_by_name:
  assumes "sorted_wrt (<) (map fst (m :: (string \<times> string) list))"
  shows "attrs_text m =
         concat (map (\<lambda>k. attr_text (k, the (map_of m k))) (sorted_list_of_set (fst ` set m)))"
proof -
  from assms have d: "distinct (map fst m)"
    by (simp add: strict_sorted_iff)
  have "attrs_text m = concat (map attr_text (map (\<lambda>k. (k, the (map_of m k))) (map fst m)))"
    by (simp only: entries_from_map_of [OF d] attrs_text_def)
  also have "\<dots> = concat (map (\<lambda>k. attr_text (k, the (map_of m k))) (map fst m))"
    by (simp add: comp_def)
  finally show ?thesis
    by (simp only: names_sorted_list [OF assms])
qed

lemma toStringOpen_attrs:
  "mName e \<noteq> [] \<Longrightarrow>
   \<exists>tail. toStringOpen e s i = s @ spaces i @ ''<'' @ mName e @ attrs_text (mAttributes e) @ tail"
  by (simp add: toStringOpen_def fill_n_def spaces_def fold_put_attr Let_def)

subsection \<open>Text leaves\<close>

text \<open>
  Claim C7. A node with an empty tag name is rendered, at indentation \<open>i\<close>, as \<open>i\<close>
  spaces, its content as it is, and one newline: nothing else is written to the stream,
  no tag, no attribute, and the content is not escaped.
\<close>

theorem text_leaf_render:
  "mName e = [] \<Longrightarrow> toString e s i = s @ spaces i @ mContent e @ [CHR 0x0A]"
  by (subst toString_append) (simp add: toString_text)

theorem text_leaf_render_witness:
  "mName (Text ''a<b'') = [] \<and> toString (Text ''a<b'') ''x'' 2 = ''x  a<b\<newline>''"
  using text_leaf_render [of "Text ''a<b''" "''x''" 2]
  by (simp add: ctor_defs render_defs)

subsection \<open>Elements without children\<close>

text \<open>
  Claim C4. A node with a tag name, no content, no child and \<^verbatim>\<open>mbNonVoid = false\<close> is
  rendered, at indentation \<open>i\<close>, as one line: \<open>i\<close> spaces, \<^verbatim>\<open><\<close>, the name, the
  attributes, \<^verbatim>\<open>/>\<close> and a newline, with no closing tag. \<^verbatim>\<open>Element("br")\<close> gives
  \<^verbatim>\<open><br/>\<close> and a newline.
\<close>

theorem void_render:
  "mName e \<noteq> [] \<Longrightarrow> mContent e = [] \<Longrightarrow> mChildren e = [] \<Longrightarrow> \<not> mbNonVoid e \<Longrightarrow>
   toString e s i =
     s @ spaces i @ ''<'' @ mName e @ attrs_text (mAttributes e) @ ''/>'' @ [CHR 0x0A]"
  by (subst toString_append) (simp add: toString_tag children_text_def)

theorem void_render_witness:
  "mName Break \<noteq> [] \<and> mContent Break = [] \<and> mChildren Break = [] \<and> \<not> mbNonVoid Break \<and>
   toString_str Break = ''<br/>\<newline>''"
  using void_render [of Break "[]" 0]
  by (simp add: ctor_defs render_defs attrs_text_def)

text \<open>
  Claim C5. A node with \<^verbatim>\<open>mbNonVoid = true\<close>, no content and no child is rendered as
  its open tag closed by \<^verbatim>\<open>>\<close>, at once followed by its closing tag, and one newline
  after it: nothing, and no newline, stands between the two tags. Only the constructors
  of \<^verbatim>\<open>ColHeader\<close>, \<^verbatim>\<open>Col\<close>, \<^verbatim>\<open>TextArea\<close> and \<^verbatim>\<open>Option\<close> set the flag, so every
  such node has a tag name. An empty \<^verbatim>\<open>Col\<close> gives \<^verbatim>\<open><td></td>\<close> and a newline.
\<close>

theorem nonvoid_empty_render:
  "constructible e \<Longrightarrow> mbNonVoid e \<Longrightarrow> mContent e = [] \<Longrightarrow> mChildren e = [] \<Longrightarrow>
   toString e s i =
     s @ spaces i @ ''<'' @ mName e @ attrs_text (mAttributes e) @ ''>'' @
     ''</'' @ mName e @ ''>'' @ [CHR 0x0A]"
proof -
  assume c: "constructible e" and nv: "mbNonVoid e" and "mContent e = []" "mChildren e = []"
  from c nv have "mName e \<noteq> []"
    by (rule constructible_NonVoid_named)
  with nv \<open>mContent e = []\<close> \<open>mChildren e = []\<close> show ?thesis
    by (subst toString_append) (simp add: toString_tag children_text_def)
qed

theorem nonvoid_empty_render_witness:
  "constructible (Col None) \<and> mbNonVoid (Col None) \<and> mContent (Col None) = [] \<and>
   mChildren (Col None) = [] \<and> toString_str (Col None) = ''<td></td>\<newline>''"
  using nonvoid_empty_render [of "Col None" "[]" 0] c_Col [of None]
  by (simp add: ctor_defs render_defs attrs_text_def)

text \<open>
  Claim C6. A node with a tag name, a content and no child is rendered at indentation 0
  as one line: the open tag closed by \<^verbatim>\<open>>\<close> with no newline, the content as it is,
  the closing tag and one newline. \<^verbatim>\<open>Element("p", "Hello")\<close> gives \<^verbatim>\<open><p>Hello</p>\<close>
  and a newline.
\<close>

theorem inline_content_render:
  "mName e \<noteq> [] \<Longrightarrow> mContent e \<noteq> [] \<Longrightarrow> mChildren e = [] \<Longrightarrow>
   toString e s 0 =
     s @ ''<'' @ mName e @ attrs_text (mAttributes e) @ ''>'' @ mContent e @
     ''</'' @ mName e @ ''>'' @ [CHR 0x0A]"
  by (subst toString_append) (simp add: toString_tag children_text_def spaces_0)

theorem inline_content_render_witness:
  "mName (Element_ctor ''p'' ''Hello'') \<noteq> [] \<and> mContent (Element_ctor ''p'' ''Hello'') \<noteq> [] \<and>
   mChildren (Element_ctor ''p'' ''Hello'') = [] \<and>
   toString_str (Element_ctor ''p'' ''Hello'') = ''<p>Hello</p>\<newline>''"
  using inline_content_render [of "Element_ctor ''p'' ''Hello''" "[]"]
  by (simp add: ctor_defs render_defs attrs_text_def)

subsection \<open>The root\<close>

text \<open>
  Claim C9. The root constructor gives a node named \<^verbatim>\<open>html\<close> with exactly two
  children, a \<^verbatim>\<open>Head\<close> first and a \<^verbatim>\<open>Body\<close> second, no attribute and no content.
\<close>

theorem root_ctor:
  "mName Element_root = ''html'' \<and>
   mChildren Element_root = [Head, Body] \<and>
   mAttributes Element_root = [] \<and> mContent Element_root = [] \<and>
   Head = Element ''head'' [] [] [] False \<and> Body = Element ''body'' [] [] [] False \<and>
   length (mChildren Element_root) = 2"
  by (simp add: ctor_defs)

subsection \<open>Attributes and children of a text leaf\<close>

text \<open>
  Claim C10. A node with an empty tag name never renders its attributes or its
  children: whatever they are, the output is the indentation, the content and a
  newline, and \<^verbatim>\<open>addAttribute\<close> and \<^verbatim>\<open>operator<<\<close> on such a node leave its
  rendering as it was.
\<close>

theorem text_leaf_ignores_attributes_and_children:
  "toString (Element [] c as ch nv) s i = s @ spaces i @ c @ [CHR 0x0A] \<and>
   (mName e = [] \<longrightarrow>
      mName (addAttribute e k v) = [] \<and> mName (operator_shl e x) = [] \<and>
      toString (addAttribute e k v) s i = toString e s i \<and>
      toString (operator_shl e x) s i = toString e s i)"
proof -
  have "toString (Element [] c as ch nv) s i = s @ spaces i @ c @ [CHR 0x0A]"
    using toString_text [of "Element [] c as ch nv" i]
    by (subst toString_append) (simp del: toString.simps)
  moreover have "toString (addAttribute e k v) s i = toString e s i" if "mName e = []"
    using that by (subst (1 2) toString_append) (simp add: toString_text data_member_simps)
  moreover have "toString (operator_shl e x) s i = toString e s i" if "mName e = []"
    using that by (subst (1 2) toString_append) (simp add: toString_text data_member_simps)
  ultimately show ?thesis by (simp add: data_member_simps)
qed

theorem text_leaf_ignores_attributes_and_children_witness:
  "mName (Text ''t'') = [] \<and>
   toString_str (operator_shl (addAttribute (Text ''t'') ''id'' ''a'') (Paragraph ''P'')) = ''t\<newline>''"
  using text_leaf_ignores_attributes_and_children
    [of "''t''" "[(''id'', ''a'')]" "[Paragraph ''P'']" False "[]" 0 "Text ''t''"]
  by (simp add: ctor_defs render_defs)


subsection \<open>Elements with children\<close>

text \<open>
  Claim C2, as stated, for every node with children and no content: it fails on a text
  leaf that was given a child, which renders as its own line only, and on a node with
  \<^verbatim>\<open>mbNonVoid = true\<close>, whose open tag is not followed by a newline.
\<close>

theorem block_render_counterexample:
  "mContent (operator_shl (Text []) (Paragraph ''A'')) = [] \<and>
   mChildren (operator_shl (Text []) (Paragraph ''A'')) \<noteq> [] \<and>
   toString_str (operator_shl (Text []) (Paragraph ''A'')) = [CHR 0x0A] \<and>
   toString_str (operator_shl (Text []) (Paragraph ''A'')) \<noteq>
     spec_block_layout (operator_shl (Text []) (Paragraph ''A'')) 0 \<and>
   mContent (operator_shl (Col None) (Paragraph ''A'')) = [] \<and>
   mChildren (operator_shl (Col None) (Paragraph ''A'')) \<noteq> [] \<and>
   toString_str (operator_shl (Col None) (Paragraph ''A'')) = ''<td>  <p>A</p>\<newline></td>\<newline>'' \<and>
   toString_str (operator_shl (Col None) (Paragraph ''A'')) \<noteq>
     spec_block_layout (operator_shl (Col None) (Paragraph ''A'')) 0"
  by (simp add: eval_defs spec_block_layout_def)

text \<open>
  Claim C2, amended. A node with a tag name, \<^verbatim>\<open>mbNonVoid = false\<close>, no content and at
  least one child is rendered at indentation \<open>i\<close> as an opening tag line (\<open>i\<close> spaces,
  the open tag, a newline), the blocks of its children in the order of \<^verbatim>\<open>mChildren\<close>,
  each rendered at \<^verbatim>\<open>i + HTML_INDENTATION\<close>, and a closing tag line (\<open>i\<close> spaces, the
  closing tag, a newline).
\<close>

theorem block_render:
  "mName e \<noteq> [] \<Longrightarrow> \<not> mbNonVoid e \<Longrightarrow> mContent e = [] \<Longrightarrow> mChildren e \<noteq> [] \<Longrightarrow>
   toString e s i =
     s @ spaces i @ ''<'' @ mName e @ attrs_text (mAttributes e) @ ''>'' @ [CHR 0x0A] @
     children_text (mChildren e) (i + HTML_INDENTATION) @
     spaces i @ ''</'' @ mName e @ ''>'' @ [CHR 0x0A]"
  by (subst toString_append) (simp add: toString_tag)

theorem block_render_witness:
  "mName (operator_shl (operator_shl (Div []) (Paragraph ''A'')) (Paragraph ''B'')) \<noteq> [] \<and>
   \<not> mbNonVoid (operator_shl (operator_shl (Div []) (Paragraph ''A'')) (Paragraph ''B'')) \<and>
   mContent (operator_shl (operator_shl (Div []) (Paragraph ''A'')) (Paragraph ''B'')) = [] \<and>
   mChildren (operator_shl (operator_shl (Div []) (Paragraph ''A'')) (Paragraph ''B'')) \<noteq> [] \<and>
   toString_str (operator_shl (operator_shl (Div []) (Paragraph ''A'')) (Paragraph ''B'')) =
     ''<div>\<newline>  <p>A</p>\<newline>  <p>B</p>\<newline></div>\<newline>''"
  using block_render [of "operator_shl (operator_shl (Div []) (Paragraph ''A'')) (Paragraph ''B'')" "[]" 0]
  by (simp add: eval_defs)

text \<open>
  Claim C3, as stated: the child of \<^verbatim>\<open>Div("Hello") << Paragraph("A")\<close> is not on a line
  of its own, its block continues the line of the open tag and the content; and a text
  leaf with content and a child renders no tag and no child.
\<close>

theorem content_and_children_counterexample:
  "mContent (operator_shl (Div ''Hello'') (Paragraph ''A'')) \<noteq> [] \<and>
   mChildren (operator_shl (Div ''Hello'') (Paragraph ''A'')) = [Paragraph ''A''] \<and>
   lines_of (toString_str (operator_shl (Div ''Hello'') (Paragraph ''A''))) =
     [''<div>Hello  <p>A</p>'', ''</div>''] \<and>
   lines_of (toString (Paragraph ''A'') [] HTML_INDENTATION) = [''  <p>A</p>''] \<and>
   ''  <p>A</p>'' \<notin> set (lines_of (toString_str (operator_shl (Div ''Hello'') (Paragraph ''A'')))) \<and>
   mContent (operator_shl (Text ''Hello'') (Paragraph ''A'')) \<noteq> [] \<and>
   mChildren (operator_shl (Text ''Hello'') (Paragraph ''A'')) = [Paragraph ''A''] \<and>
   toString_str (operator_shl (Text ''Hello'') (Paragraph ''A'')) = ''Hello\<newline>''"
  by (simp add: eval_defs lines_of_def)

text \<open>
  Claim C3, amended. A node with a tag name, a content and at least one child is
  rendered at indentation \<open>i\<close> as \<open>i\<close> spaces, the open tag closed by \<^verbatim>\<open>>\<close>, the
  content on the same line, then with nothing in between the blocks of the children in
  the order of \<^verbatim>\<open>mChildren\<close>, each rendered at \<^verbatim>\<open>i + HTML_INDENTATION\<close>, then \<open>i\<close>
  spaces, the closing tag and a newline. Every block ends with a newline, so the first
  child continues the line of the content and each later child starts a line.
\<close>

theorem content_and_children_render:
  "mName e \<noteq> [] \<Longrightarrow> mContent e \<noteq> [] \<Longrightarrow> mChildren e \<noteq> [] \<Longrightarrow>
   toString e s i =
     s @ spaces i @ ''<'' @ mName e @ attrs_text (mAttributes e) @ ''>'' @ mContent e @
     children_text (mChildren e) (i + HTML_INDENTATION) @
     spaces i @ ''</'' @ mName e @ ''>'' @ [CHR 0x0A]
   \<and> toString x [] (i + HTML_INDENTATION) \<noteq> []
   \<and> last (toString x [] (i + HTML_INDENTATION)) = CHR 0x0A"
  using toString_last_newline [of x "i + HTML_INDENTATION"]
  by (subst toString_append) (simp add: toString_tag)

theorem content_and_children_render_witness:
  "mName (operator_shl (operator_shl (Div ''Hello'') (Paragraph ''A'')) (Paragraph ''B'')) \<noteq> [] \<and>
   mContent (operator_shl (operator_shl (Div ''Hello'') (Paragraph ''A'')) (Paragraph ''B'')) \<noteq> [] \<and>
   mChildren (operator_shl (operator_shl (Div ''Hello'') (Paragraph ''A'')) (Paragraph ''B'')) \<noteq> [] \<and>
   toString_str (operator_shl (operator_shl (Div ''Hello'') (Paragraph ''A'')) (Paragraph ''B'')) =
     ''<div>Hello  <p>A</p>\<newline>  <p>B</p>\<newline></div>\<newline>''"
  using content_and_children_render
    [of "operator_shl (operator_shl (Div ''Hello'') (Paragraph ''A'')) (Paragraph ''B'')" "[]" 0]
  by (simp add: eval_defs)


subsection \<open>Attributes\<close>

text \<open>
  Claim C1. In every node that the constructors and builder calls produce, the names
  of the attributes are strictly ascending, so each name has one entry, and the open
  tag writes the attributes in that order: for each name of the sorted list of names,
  a space, the name and its value. After any sequence of \<^verbatim>\<open>addAttribute\<close> calls the
  names are the sorted list of the old and the new names and each name holds the last
  value given to it, so two sequences that set the same final values give the same
  node, in whatever order the calls were made. Two calls with the same name leave one
  entry for it, with the second value.
\<close>

theorem attributes_in_name_order:
  "constructible e \<Longrightarrow>
     sorted_wrt (<) (map fst (mAttributes e)) \<and>
     (mName e \<noteq> [] \<longrightarrow>
        (\<exists>tail. toStringOpen e s i =
           s @ spaces i @ ''<'' @ mName e @
           concat (map (\<lambda>k. attr_text (k, the (map_of (mAttributes e) k)))
                    (sorted_list_of_set (fst ` set (mAttributes e)))) @ tail)) \<and>
     map fst (mAttributes (addAttributes e calls)) =
       sorted_list_of_set (fst ` set (mAttributes e) \<union> fst ` set calls) \<and>
     map_of (mAttributes (addAttributes e calls)) = map_of (mAttributes e) ++ map_of (rev calls) \<and>
     (map_of (rev calls) = map_of (rev calls') \<longrightarrow> addAttributes e calls = addAttributes e calls') \<and>
     filter (\<lambda>p. fst p = k) (mAttributes (addAttribute (addAttribute e k a) k b)) = [(k, b)]"
proof -
  assume c: "constructible e"
  then have srt: "sorted_wrt (<) (map fst (mAttributes e))"
    by (rule constructible_sorted)
  have "\<exists>tail. toStringOpen e s i =
           s @ spaces i @ ''<'' @ mName e @
           concat (map (\<lambda>k. attr_text (k, the (map_of (mAttributes e) k)))
                    (sorted_list_of_set (fst ` set (mAttributes e)))) @ tail"
    if "mName e \<noteq> []"
    using toStringOpen_attrs [OF that, of s i] by (simp only: attrs_text_by_name [OF srt])
  moreover have "map fst (mAttributes (addAttributes e calls)) =
       sorted_list_of_set (fst ` set (mAttributes e) \<union> fst ` set calls)"
  proof -
    have "sorted_wrt (<) (map fst (mAttributes (addAttributes e calls)))"
      using c by (simp add: constructible_addAttributes constructible_sorted)
    then have "map fst (mAttributes (addAttributes e calls)) =
        sorted_list_of_set (fst ` set (mAttributes (addAttributes e calls)))"
      by (rule names_sorted_list)
    then show ?thesis
      by (simp only: keys_addAttributes)
  qed
  moreover have "map_of (mAttributes (addAttributes e calls)) = map_of (mAttributes e) ++ map_of (rev calls)"
    by (rule map_of_addAttributes)
  moreover have "addAttributes e calls = addAttributes e calls'"
    if "map_of (rev calls) = map_of (rev calls')"
    using c that by (rule addAttributes_order_free)
  moreover have "filter (\<lambda>p. fst p = k) (mAttributes (addAttribute (addAttribute e k a) k b)) = [(k, b)]"
  proof -
    have "sorted_wrt (<) (map fst (mAttributes (addAttribute e k a)))"
      using srt by (simp add: data_member_simps sorted_map_assign)
    then show ?thesis
      by (simp add: mAttributes_addAttribute [of "addAttribute e k a"] filter_key_map_assign)
  qed
  ultimately show ?thesis using srt by blast
qed

theorem attributes_in_name_order_witness:
  "constructible (Element_ctor ''input'' []) \<and>
   mAttributes (addAttributes (Element_ctor ''input'' []) [(''type'', ''text''), (''name'', ''x'')]) =
     [(''name'', ''x''), (''type'', ''text'')] \<and>
   addAttributes (Element_ctor ''input'' []) [(''type'', ''text''), (''name'', ''x'')] =
   addAttributes (Element_ctor ''input'' []) [(''name'', ''x''), (''type'', ''text'')] \<and>
   toString_str (addAttributes (Element_ctor ''input'' []) [(''name'', ''x''), (''type'', ''text'')]) =
     ''<input name=\"x\" type=\"text\"/>\<newline>'' \<and>
   mAttributes (addAttribute (addAttribute (Element_ctor ''input'' []) ''id'' ''a'') ''id'' ''b'') =
     [(''id'', ''b'')]"
  using attributes_in_name_order
    [of "Element_ctor ''input'' []" "[]" 0 "[(''type'', ''text''), (''name'', ''x'')]"
        "[(''name'', ''x''), (''type'', ''text'')]" "''id''" "''a''" "''b''"]
    c_ctor [of "''input''" "[]"]
  by (simp add: addAttributes_def ctor_defs render_defs)


subsection \<open>The gated containers\<close>

lemma head_overload_iff:
  "list_ex (derives_from c) (own_overloads Head_t) \<longleftrightarrow>
   c \<in> {Title_t, Style_t, Script_t, Meta_t, Rel_t, Base_t}"
  by (auto simp: derives_from_def)

lemma row_overload_iff:
  "list_ex (derives_from c) (own_overloads Row_t) \<longleftrightarrow> c \<in> {ColHeader_t, Col_t}"
  by (auto simp: derives_from_def)

lemma table_overload_iff:
  "list_ex (derives_from c) (own_overloads Table_t) \<longleftrightarrow> c = Row_t"
  by (auto simp: derives_from_def)

lemma not_Input_gated:
  "\<not> derives_from Head_t Input_t \<and> \<not> derives_from Row_t Input_t \<and> \<not> derives_from Table_t Input_t"
  by (simp add: derives_from_def input_subclasses_def)

text \<open>
  Claim C8, as stated: a node of another kind is appended to a head, a table row and a
  table without an error. \<^verbatim>\<open>Head().id("h")\<close> is the same head as an \<^verbatim>\<open>Element&&\<close>, and
  \<^verbatim>\<open>Element::operator<<\<close> takes the paragraph; likewise for \<^verbatim>\<open>Row\<close> and \<^verbatim>\<open>Table\<close>, and
  for the table returned by \<^verbatim>\<open>Table() << Row()\<close>.
\<close>

theorem gated_append_counterexample:
  "shl_expr (id_expr (Head_t, Head) ''h'') (Paragraph_t, Paragraph ''x'') =
     Inr (Element_t, Element ''head'' [] [(''id'', ''h'')] [Element ''p'' ''x'' [] [] False] False) \<and>
   shl_expr (id_expr (Row_t, Row) ''r'') (Paragraph_t, Paragraph ''x'') =
     Inr (Element_t, Element ''tr'' [] [(''id'', ''r'')] [Element ''p'' ''x'' [] [] False] False) \<and>
   shl_expr (id_expr (Table_t, Table) ''t'') (Paragraph_t, Paragraph ''x'') =
     Inr (Element_t, Element ''table'' [] [(''id'', ''t'')] [Element ''p'' ''x'' [] [] False] False) \<and>
   shl_expr (Table_t, Table) (Row_t, Row) =
     Inr (Element_t, Element ''table'' [] [] [Element ''tr'' [] [] [] False] False) \<and>
   shl_expr (Element_t, Element ''table'' [] [] [Element ''tr'' [] [] [] False] False)
       (Paragraph_t, Paragraph ''x'') =
     Inr (Element_t, Element ''table'' [] [] [Element ''tr'' [] [] [] False, Element ''p'' ''x'' [] [] False] False)"
  by (simp add: id_attr_def ctor_defs derives_from_def input_subclasses_def)

text \<open>
  Claim C8, amended. On a left operand of the static type \<^verbatim>\<open>Head\<close>, \<^verbatim>\<open>Row\<close> or
  \<^verbatim>\<open>Table\<close>, \<^verbatim>\<open><<\<close> appends the node when its class is one of
  title/style/script/meta/link/base for the head, column header/column for the row,
  row for the table, and is a compile error for every other class. The restriction
  belongs to the static type: after \<^verbatim>\<open>id\<close> the same container is an \<^verbatim>\<open>Element&&\<close> and takes a
  node of every class.
\<close>

theorem gated_append:
  "map_sum (\<lambda>err. err) snd (shl_expr (Head_t, e) (c, x)) =
     (if c \<in> {Title_t, Style_t, Script_t, Meta_t, Rel_t, Base_t}
      then Inr (operator_shl e x) else Inl deleted_function) \<and>
   map_sum (\<lambda>err. err) snd (shl_expr (Row_t, e) (c, x)) =
     (if c \<in> {ColHeader_t, Col_t} then Inr (operator_shl e x) else Inl deleted_function) \<and>
   map_sum (\<lambda>err. err) snd (shl_expr (Table_t, e) (c, x)) =
     (if c = Row_t then Inr (operator_shl e x) else Inl deleted_function) \<and>
   (k \<in> {Head_t, Row_t, Table_t} \<longrightarrow>
      shl_expr (id_expr (k, e) v) (c, x) = Inr (Element_t, operator_shl (id_attr e v) x))"
proof -
  have "map_sum (\<lambda>err. err) snd (shl_expr (Head_t, e) (c, x)) =
     (if c \<in> {Title_t, Style_t, Script_t, Meta_t, Rel_t, Base_t}
      then Inr (operator_shl e x) else Inl deleted_function)"
    using head_overload_iff [of c] by auto
  moreover have "map_sum (\<lambda>err. err) snd (shl_expr (Row_t, e) (c, x)) =
     (if c \<in> {ColHeader_t, Col_t} then Inr (operator_shl e x) else Inl deleted_function)"
    using row_overload_iff [of c] by auto
  moreover have "map_sum (\<lambda>err. err) snd (shl_expr (Table_t, e) (c, x)) =
     (if c = Row_t then Inr (operator_shl e x) else Inl deleted_function)"
    using table_overload_iff [of c] by auto
  moreover have "shl_expr (id_expr (k, e) v) (c, x) = Inr (Element_t, operator_shl (id_attr e v) x)"
    if "k \<in> {Head_t, Row_t, Table_t}"
    using that not_Input_gated by auto
  ultimately show ?thesis by blast
qed

theorem gated_append_witness:
  "shl_expr (Head_t, Head) (Title_t, Title ''T'') =
     Inr (Head_t, Element ''head'' [] [] [Element ''title'' ''T'' [] [] False] False) \<and>
   map_sum (\<lambda>err. err) snd (shl_expr (Head_t, Head) (Paragraph_t, Paragraph ''x'')) = Inl deleted_function \<and>
   map_sum (\<lambda>err. err) snd (shl_expr (Row_t, Row) (Paragraph_t, Paragraph ''x'')) = Inl deleted_function \<and>
   map_sum (\<lambda>err. err) snd (shl_expr (Table_t, Table) (Paragraph_t, Paragraph ''x'')) = Inl deleted_function \<and>
   Head_t \<in> {Head_t, Row_t, Table_t}"
  using gated_append [of Head Paragraph_t "Paragraph ''x''" Head_t "[]"]
        gated_append [of Row Paragraph_t "Paragraph ''x''" Head_t "[]"]
        gated_append [of Table Paragraph_t "Paragraph ''x''" Head_t "[]"]
  by (simp add: ctor_defs derives_from_def)


end
